theory Spec2Isabelle
  imports Main "HOL-Library.AList" "HOL-Library.Word"
begin

section \<open>Values of the scripts\<close>

text \<open>
  The three example scripts (\<^verbatim>\<open>advanced_mood.js\<close>, \<^verbatim>\<open>mood.mjs\<close>, which holds the
  mood demo and the voice assistant, and \<^verbatim>\<open>function_call_example.js\<close>) handle values
  that arrive from the remote service as parsed JSON, and objects of the client library.
  \<open>jsval\<close> is the part of JavaScript's value universe that they can meet: numbers are
  modelled by integers (only their being zero matters to the code), objects by their own
  data properties in an association list.

  Strings are lists of \<open>char\<close>: a string of the model is a JavaScript string all of whose
  code units are below 256 (Latin-1).
\<close>

datatype jsval =
    JUndefined
  | JNull
  | JBool bool
  | JNum int
  | JStr string
  | JArr "jsval list"
  | JObj "(string \<times> jsval) list"

datatype error = TypeError

text \<open>The truthiness test of \<^verbatim>\<open>x ? a : b\<close>, \<^verbatim>\<open>x && y\<close> and \<^verbatim>\<open>if (x)\<close>.\<close>

fun truthy :: "jsval \<Rightarrow> bool" where
  "truthy JUndefined = False"
| "truthy JNull = False"
| "truthy (JBool b) = b"
| "truthy (JNum n) = (n \<noteq> 0)"
| "truthy (JStr s) = (s \<noteq> [])"
| "truthy (JArr xs) = True"
| "truthy (JObj fs) = True"

text \<open>
  Reading the data property \<^verbatim>\<open>v.k\<close>: a TypeError on \<^verbatim>\<open>undefined\<close> and \<^verbatim>\<open>null\<close>, the
  field of an object, and \<^verbatim>\<open>undefined\<close> for a name the value does not carry. The names
  read by the scripts (\<^verbatim>\<open>type\<close>, \<^verbatim>\<open>items\<close>) are not members of any prototype, so
  primitives and arrays answer \<^verbatim>\<open>undefined\<close>.
\<close>

fun get_prop :: "jsval \<Rightarrow> string \<Rightarrow> error + jsval" where
  "get_prop JUndefined k = Inl TypeError"
| "get_prop JNull k = Inl TypeError"
| "get_prop (JObj fs) k = (case map_of fs k of None \<Rightarrow> Inr JUndefined | Some v \<Rightarrow> Inr v)"
| "get_prop v k = Inr JUndefined"

text \<open>The assignment \<^verbatim>\<open>o.k = v\<close> on an object.\<close>

fun set_prop :: "jsval \<Rightarrow> string \<Rightarrow> jsval \<Rightarrow> jsval" where
  "set_prop (JObj fs) k v = JObj (AList.update k v fs)"
| "set_prop w k v = w"

fun isArray :: "jsval \<Rightarrow> bool" where
  "isArray (JArr xs) = True"
| "isArray v = False"


section \<open>The audio framer\<close>

text \<open>
  \<^verbatim>\<open>micInputStream.on('data', ...)\<close> of \<^verbatim>\<open>advanced_mood.js\<close> and of the mood demo, and
  \<^verbatim>\<open>processAudioData\<close> of the voice assistant:
  \<^verbatim>\<open>
    audioBuffer = Buffer.concat([audioBuffer, data]);
    while (audioBuffer.length >= chunkSize) {
      const chunk = audioBuffer.slice(0, chunkSize);
      audioBuffer = audioBuffer.slice(chunkSize);
      const int16Array = new Int16Array(chunk.buffer, chunk.byteOffset, chunk.length / 2);
      try { client.appendInputAudio(int16Array); }
      catch (error) { console.error('Error sending audio chunk:', error); }
    }
  \<close>
  The \<^verbatim>\<open>Int16Array\<close> is a view on the bytes of \<^verbatim>\<open>chunk\<close> (no copy is made), so a frame
  is modelled by those bytes; building the view is taken to succeed (\<^verbatim>\<open>chunk.length\<close> is
  4800, and the buffers come from \<^verbatim>\<open>Buffer.concat\<close> and are cut at multiples of 4800).
  The client library is not part of the scripts:
  \<^verbatim>\<open>appendInputAudio\<close> is a parameter that takes the frame and the client's state and
  answers the new state, with the exception when it throws.
\<close>

type_synonym byte = "8 word"

definition chunkSize :: nat where
  "chunkSize = 4800"

type_synonym 'c sender = "byte list \<Rightarrow> 'c \<Rightarrow> error option \<times> 'c"

record 'c framer =
  audioBuffer :: "byte list"
  client :: 'c

text \<open>
  One call of \<^verbatim>\<open>appendInputAudio\<close>: the frame handed over and what the \<^verbatim>\<open>catch\<close>
  clause logged (\<open>None\<close> when the call returned).
\<close>

type_synonym send_call = "byte list \<times> error option"

function while_loop :: "'c sender \<Rightarrow> 'c framer \<Rightarrow> 'c framer \<times> send_call list" where
  "while_loop appendInputAudio st =
     (if chunkSize \<le> length (audioBuffer st) then
        (let chunk = take chunkSize (audioBuffer st);
             st1 = st\<lparr>audioBuffer := drop chunkSize (audioBuffer st)\<rparr>;
             (thrown, c) = appendInputAudio chunk (client st1);
             (st2, calls) = while_loop appendInputAudio (st1\<lparr>client := c\<rparr>)
         in (st2, (chunk, thrown) # calls))
      else (st, []))"
  by pat_completeness auto
termination
  by (relation "measure (\<lambda>(f, st). length (audioBuffer st))") (auto simp: chunkSize_def)

declare while_loop.simps [simp del]

definition on_data :: "'c sender \<Rightarrow> byte list \<Rightarrow> 'c framer \<Rightarrow> 'c framer \<times> send_call list" where
  "on_data appendInputAudio data st =
     while_loop appendInputAudio (st\<lparr>audioBuffer := audioBuffer st @ data\<rparr>)"

text \<open>
  \<^verbatim>\<open>processAudioData\<close> of the voice assistant wraps the same statements in one more
  \<^verbatim>\<open>try\<close>; the only call that throws in the model is the one inside the inner
  \<^verbatim>\<open>try\<close>, so the outer \<^verbatim>\<open>catch\<close> clause is never entered.
\<close>

definition processAudioData :: "'c sender \<Rightarrow> byte list \<Rightarrow> 'c framer \<Rightarrow> 'c framer \<times> send_call list" where
  "processAudioData appendInputAudio data st = on_data appendInputAudio data st"

text \<open>The data events of a run, in order; the buffer starts as \<^verbatim>\<open>Buffer.alloc(0)\<close>.\<close>

fun on_data_events :: "'c sender \<Rightarrow> byte list list \<Rightarrow> 'c framer \<Rightarrow> 'c framer \<times> send_call list" where
  "on_data_events appendInputAudio [] st = (st, [])"
| "on_data_events appendInputAudio (data # rest) st =
     (let (st1, calls1) = on_data appendInputAudio data st;
          (st2, calls2) = on_data_events appendInputAudio rest st1
      in (st2, calls1 @ calls2))"

definition startAudioStream :: "'c \<Rightarrow> 'c framer" where
  "startAudioStream c = \<lparr>audioBuffer = [], client = c\<rparr>"


section \<open>The tool handlers\<close>

text \<open>
  \<^verbatim>\<open>String.prototype.toLowerCase\<close> on the code units below 256: the letters A to Z and
  the capital letters of Latin-1 (192 to 214 and 216 to 222; 215 is the multiplication
  sign) move up by 32, every other code unit stays.
\<close>

definition toLowerCase_char :: "char \<Rightarrow> char" where
  "toLowerCase_char c =
     (let n = (of_char c :: nat)
      in if (65 \<le> n \<and> n \<le> 90) \<or> (192 \<le> n \<and> n \<le> 214) \<or> (216 \<le> n \<and> n \<le> 222)
         then char_of (n + 32) else c)"

definition toLowerCase :: "string \<Rightarrow> string" where
  "toLowerCase s = map toLowerCase_char s"

text \<open>The local functions of the scripts; each one writes a line to the console.\<close>

datatype local_function =
    yesResponse | noResponse | dontKnowResponse
  | happy | sad
  | annoyed | fearful | proud | laugh | friendly

text \<open>
  What one run of a tool handler did: the local functions it called, in order, and the
  object it returned (the value the promise of the \<^verbatim>\<open>async\<close> handler resolves to). A
  handler that throws rejects its promise: \<open>Inl\<close>.
\<close>

record outcome =
  called :: "local_function list"
  returned :: jsval

text \<open>
  \<^verbatim>\<open>advanced_mood.js\<close>, the handler of \<^verbatim>\<open>action_handler\<close>:
  \<^verbatim>\<open>
    const normalized = action ? action.toLowerCase() : "none";
    switch (normalized) { case "yes": yesResponse(); break; ... default: console.log(...) }
    return { status: "processed", action: normalized };
  \<close>
  \<^verbatim>\<open>action\<close> is whatever the parsed arguments hold under that key, \<^verbatim>\<open>undefined\<close> when
  the key is absent. Only a string has a method \<^verbatim>\<open>toLowerCase\<close>; calling it on another
  truthy value is a TypeError.
\<close>

definition action_normalized :: "jsval \<Rightarrow> error + string" where
  "action_normalized action =
     (if truthy action
      then (case action of JStr s \<Rightarrow> Inr (toLowerCase s) | _ \<Rightarrow> Inl TypeError)
      else Inr ''none'')"

definition action_switch :: "string \<Rightarrow> local_function list" where
  "action_switch normalized =
     (if normalized = ''yes'' then [yesResponse]
      else if normalized = ''no'' then [noResponse]
      else if normalized = ''idk'' then [dontKnowResponse]
      else if normalized = ''happy'' then [happy]
      else if normalized = ''sad'' then [sad]
      else if normalized = ''annoyed'' then [annoyed]
      else if normalized = ''fearful'' then [fearful]
      else if normalized = ''proud'' then [proud]
      else if normalized = ''laugh'' then [laugh]
      else if normalized = ''friendly'' then [friendly]
      else [])"

definition action_handler :: "jsval \<Rightarrow> error + outcome" where
  "action_handler action =
     (case action_normalized action of
        Inl e \<Rightarrow> Inl e
      | Inr normalized \<Rightarrow>
          Inr \<lparr>called = action_switch normalized,
               returned = JObj [(''status'', JStr ''processed''), (''action'', JStr normalized)]\<rparr>)"

text \<open>
  The mood demo of \<^verbatim>\<open>mood.mjs\<close> and \<^verbatim>\<open>function_call_example.js\<close>, the handler of
  \<^verbatim>\<open>mood_handler\<close>:
  \<^verbatim>\<open>
    const normalizedMood = mood ? mood.toLowerCase() : "";
    if (normalizedMood === 'happy') { happy(); }
    else if (normalizedMood === 'sad') { sad(); }
    else { console.log("No strong emotion detected; no function is called."); }
    return { status: 'processed', mood };
  \<close>
  The two differ in the status they return, \<^verbatim>\<open>'processed'\<close> and \<^verbatim>\<open>'done'\<close>. The object
  returned carries the argument \<^verbatim>\<open>mood\<close> as it came.
\<close>

definition mood_normalized :: "jsval \<Rightarrow> error + string" where
  "mood_normalized mood =
     (if truthy mood
      then (case mood of JStr s \<Rightarrow> Inr (toLowerCase s) | _ \<Rightarrow> Inl TypeError)
      else Inr [])"

definition mood_branch :: "string \<Rightarrow> local_function list" where
  "mood_branch normalizedMood =
     (if normalizedMood = ''happy'' then [happy]
      else if normalizedMood = ''sad'' then [sad]
      else [])"

definition mood_handler_status :: "string \<Rightarrow> jsval \<Rightarrow> error + outcome" where
  "mood_handler_status st mood =
     (case mood_normalized mood of
        Inl e \<Rightarrow> Inl e
      | Inr normalizedMood \<Rightarrow>
          Inr \<lparr>called = mood_branch normalizedMood,
               returned = JObj [(''status'', JStr st), (''mood'', mood)]\<rparr>)"

definition mood_handler :: "jsval \<Rightarrow> error + outcome" where
  "mood_handler = mood_handler_status ''processed''"

definition mood_handler_function_call_example :: "jsval \<Rightarrow> error + outcome" where
  "mood_handler_function_call_example = mood_handler_status ''done''"

text \<open>
  The normalisation as the specification words it: trim, lower-case, and \<open>none\<close> for an
  empty or absent value. \<^verbatim>\<open>String.prototype.trim\<close> removes white space and line
  terminators at both ends; below 256 these are the code units 9 to 13, 32 and 160.
\<close>

definition isWhiteSpace :: "char \<Rightarrow> bool" where
  "isWhiteSpace c =
     (let n = (of_char c :: nat) in (9 \<le> n \<and> n \<le> 13) \<or> n = 32 \<or> n = 160)"

definition trim :: "string \<Rightarrow> string" where
  "trim s = rev (dropWhile isWhiteSpace (rev (dropWhile isWhiteSpace s)))"

definition spec_normalize :: "string option \<Rightarrow> string" where
  "spec_normalize a =
     (case a of
        None \<Rightarrow> ''none''
      | Some s \<Rightarrow> (if toLowerCase (trim s) = [] then ''none'' else toLowerCase (trim s)))"

text \<open>The identifiers that the tool declaration of \<^verbatim>\<open>action_handler\<close> lists.\<close>

definition canonical :: "string list" where
  "canonical = [''yes'', ''no'', ''idk'', ''happy'', ''sad'', ''annoyed'', ''fearful'',
                ''proud'', ''laugh'', ''friendly'', ''none'']"


section \<open>The reset of the conversation\<close>

text \<open>
  \<^verbatim>\<open>advanced_mood.js\<close> and the mood demo:
  \<^verbatim>\<open>
    client.on('conversation.item.completed', ({ item }) => {
      if (item.type === 'function_call') {
        console.log("Function call completed:", item);
        if (client.conversation && Array.isArray(client.conversation.items)) {
          client.conversation.items = [];
          console.log("Conversation context has been reset for new input.");
        }
      }
    });
  \<close>
  The client is an object of the library; the listener reads and writes its property
  \<^verbatim>\<open>conversation\<close> only, the other properties are the rest of the record.
\<close>

record realtime_client =
  conversation :: jsval

datatype console_line =
    Function_call_completed jsval
  | Conversation_context_reset

definition conversation_item_completed ::
  "jsval \<Rightarrow> 'a realtime_client_scheme \<Rightarrow> error + ('a realtime_client_scheme \<times> console_line list)" where
  "conversation_item_completed item cl =
     (case get_prop item ''type'' of
        Inl e \<Rightarrow> Inl e
      | Inr t \<Rightarrow>
          if t = JStr ''function_call'' then
            (if truthy (conversation cl) then
               (case get_prop (conversation cl) ''items'' of
                  Inl e \<Rightarrow> Inl e
                | Inr its \<Rightarrow>
                    if isArray its
                    then Inr (cl\<lparr>conversation := set_prop (conversation cl) ''items'' (JArr [])\<rparr>,
                              [Function_call_completed item, Conversation_context_reset])
                    else Inr (cl, [Function_call_completed item]))
             else Inr (cl, [Function_call_completed item]))
          else Inr (cl, []))"




section \<open>Connecting\<close>

text \<open>
  \<^verbatim>\<open>main\<close> of the voice assistant in \<^verbatim>\<open>mood.mjs\<close>:
  \<^verbatim>\<open>
    try { await client.connect(); startAudioStream(); }
    catch (error) { console.error(...); setTimeout(main, 5000); }
  \<close>
  and \<^verbatim>\<open>main\<close> of \<^verbatim>\<open>advanced_mood.js\<close> and of the mood demo:
  \<^verbatim>\<open>
    try { await client.connect(); startAudioStream(); }
    catch (error) { console.error(...); }
  \<close>
  \<^verbatim>\<open>connect\<close> belongs to the library: whether it succeeds is an input. One call of
  \<^verbatim>\<open>main\<close> answers whether it started the audio stream and the timer it set for the
  next call of \<^verbatim>\<open>main\<close>, in milliseconds.
\<close>

record attempt =
  audio_started :: bool
  retry_after :: "nat option"

definition main_voice :: "bool \<Rightarrow> attempt" where
  "main_voice connected =
     (if connected then \<lparr>audio_started = True, retry_after = None\<rparr>
      else \<lparr>audio_started = False, retry_after = Some 5000\<rparr>)"

definition main_advanced_mood :: "bool \<Rightarrow> attempt" where
  "main_advanced_mood connected =
     (if connected then \<lparr>audio_started = True, retry_after = None\<rparr>
      else \<lparr>audio_started = False, retry_after = None\<rparr>)"

text \<open>
  The event loop: \<^verbatim>\<open>main()\<close> is called once, and again each time a timer it set
  expires. The list holds the outcomes of the successive calls of \<^verbatim>\<open>connect\<close>; the run
  is followed for as long as outcomes are given.
\<close>

fun event_loop :: "(bool \<Rightarrow> attempt) \<Rightarrow> bool list \<Rightarrow> attempt list" where
  "event_loop main [] = []"
| "event_loop main (connected # outcomes) =
     (let a = main connected
      in a # (case retry_after a of None \<Rightarrow> [] | Some delay \<Rightarrow> event_loop main outcomes))"


section \<open>Properties of the framer\<close>

lemma chunkSize_pos: "0 < chunkSize"
  by (simp add: chunkSize_def)

lemma while_loop_stop:
  "length (audioBuffer st) < chunkSize \<Longrightarrow> while_loop f st = (st, [])"
  by (simp add: while_loop.simps[of f st])

lemma while_loop_iterate:
  assumes "chunkSize \<le> length (audioBuffer st)"
  shows "while_loop f st =
           (fst (while_loop f (st\<lparr>audioBuffer := drop chunkSize (audioBuffer st),
                                  client := snd (f (take chunkSize (audioBuffer st)) (client st))\<rparr>)),
            (take chunkSize (audioBuffer st), fst (f (take chunkSize (audioBuffer st)) (client st)))
              # snd (while_loop f (st\<lparr>audioBuffer := drop chunkSize (audioBuffer st),
                                  client := snd (f (take chunkSize (audioBuffer st)) (client st))\<rparr>)))"
  using assms by (simp add: while_loop.simps[of f st] Let_def case_prod_beta)

text \<open>The frames cut by the loop, followed by what it leaves, are the buffer it found.\<close>

lemma while_loop_concat:
  "concat (map fst (snd (while_loop f st))) @ audioBuffer (fst (while_loop f st)) = audioBuffer st"
proof (induction "length (audioBuffer st)" arbitrary: st rule: less_induct)
  case less
  show ?case
  proof (cases "chunkSize \<le> length (audioBuffer st)")
    case True
    let ?st1 = "st\<lparr>audioBuffer := drop chunkSize (audioBuffer st),
                   client := snd (f (take chunkSize (audioBuffer st)) (client st))\<rparr>"
    have "length (audioBuffer ?st1) < length (audioBuffer st)"
      using True chunkSize_pos by simp
    from less[OF this] show ?thesis
      by (simp add: while_loop_iterate[OF True])
  next
    case False
    then show ?thesis by (simp add: while_loop_stop)
  qed
qed

lemma while_loop_frame_lengths:
  "map (\<lambda>call. length (fst call)) (snd (while_loop f st))
     = replicate (length (audioBuffer st) div chunkSize) chunkSize"
proof (induction "length (audioBuffer st)" arbitrary: st rule: less_induct)
  case less
  show ?case
  proof (cases "chunkSize \<le> length (audioBuffer st)")
    case True
    let ?st1 = "st\<lparr>audioBuffer := drop chunkSize (audioBuffer st),
                   client := snd (f (take chunkSize (audioBuffer st)) (client st))\<rparr>"
    have "length (audioBuffer ?st1) < length (audioBuffer st)"
      using True chunkSize_pos by simp
    from less[OF this] show ?thesis
      using True chunkSize_pos
      by (simp add: while_loop_iterate[OF True] le_div_geq)
  next
    case False
    then show ?thesis by (simp add: while_loop_stop)
  qed
qed

lemma while_loop_remainder:
  "audioBuffer (fst (while_loop f st))
     = drop (length (audioBuffer st) div chunkSize * chunkSize) (audioBuffer st)"
proof (induction "length (audioBuffer st)" arbitrary: st rule: less_induct)
  case less
  show ?case
  proof (cases "chunkSize \<le> length (audioBuffer st)")
    case True
    let ?st1 = "st\<lparr>audioBuffer := drop chunkSize (audioBuffer st),
                   client := snd (f (take chunkSize (audioBuffer st)) (client st))\<rparr>"
    have "length (audioBuffer ?st1) < length (audioBuffer st)"
      using True chunkSize_pos by simp
    from less[OF this] show ?thesis
      using True chunkSize_pos
      by (simp add: while_loop_iterate[OF True] le_div_geq add.commute)
  next
    case False
    then show ?thesis by (simp add: while_loop_stop)
  qed
qed

lemma while_loop_frames:
  "map fst (snd (while_loop f st))
     = map (\<lambda>i. take chunkSize (drop (i * chunkSize) (audioBuffer st)))
           [0 ..< length (audioBuffer st) div chunkSize]"
proof (induction "length (audioBuffer st)" arbitrary: st rule: less_induct)
  case less
  show ?case
  proof (cases "chunkSize \<le> length (audioBuffer st)")
    case True
    let ?st1 = "st\<lparr>audioBuffer := drop chunkSize (audioBuffer st),
                   client := snd (f (take chunkSize (audioBuffer st)) (client st))\<rparr>"
    have "length (audioBuffer ?st1) < length (audioBuffer st)"
      using True chunkSize_pos by simp
    from less[OF this] show ?thesis
      using True chunkSize_pos
      by (simp add: while_loop_iterate[OF True] le_div_geq upt_conv_Cons map_Suc_upt[symmetric]
               add.commute del: upt_Suc)
  next
    case False
    then show ?thesis by (simp add: while_loop_stop)
  qed
qed

lemma while_loop_short:
  "length (audioBuffer (fst (while_loop f st))) = length (audioBuffer st) mod chunkSize"
  by (simp add: while_loop_remainder minus_div_mult_eq_mod)

text \<open>A sender that throws at every call: the loop runs as far as with any other.\<close>

lemma while_loop_throwing:
  "while_loop (\<lambda>frame c. (Some e, c)) st
     = (st\<lparr>audioBuffer := drop (length (audioBuffer st) div chunkSize * chunkSize) (audioBuffer st)\<rparr>,
        map (\<lambda>i. (take chunkSize (drop (i * chunkSize) (audioBuffer st)), Some e))
            [0 ..< length (audioBuffer st) div chunkSize])"
proof (induction "length (audioBuffer st)" arbitrary: st rule: less_induct)
  case less
  show ?case
  proof (cases "chunkSize \<le> length (audioBuffer st)")
    case True
    let ?st1 = "st\<lparr>audioBuffer := drop chunkSize (audioBuffer st), client := client st\<rparr>"
    have "length (audioBuffer ?st1) < length (audioBuffer st)"
      using True chunkSize_pos by simp
    from less[OF this] show ?thesis
      using True chunkSize_pos
      by (simp add: while_loop_iterate[OF True] le_div_geq upt_conv_Cons map_Suc_upt[symmetric]
               add.commute del: upt_Suc)
  next
    case False
    then show ?thesis by (simp add: while_loop_stop)
  qed
qed

lemma on_data_concat:
  "concat (map fst (snd (on_data f data st))) @ audioBuffer (fst (on_data f data st))
     = audioBuffer st @ data"
  by (simp add: on_data_def while_loop_concat)

lemma on_data_short:
  "length (audioBuffer (fst (on_data f data st))) < chunkSize"
  by (simp add: on_data_def while_loop_short chunkSize_pos)

lemma on_data_frame_lengths:
  "map (\<lambda>call. length (fst call)) (snd (on_data f data st))
     = replicate (length (snd (on_data f data st))) chunkSize"
proof -
  have "length (snd (on_data f data st))
          = length (map (\<lambda>call. length (fst call)) (snd (on_data f data st)))"
    by simp
  also have "\<dots> = (length (audioBuffer st) + length data) div chunkSize"
    unfolding on_data_def while_loop_frame_lengths by simp
  finally show ?thesis
    by (simp add: on_data_def while_loop_frame_lengths)
qed

lemma on_data_events_concat:
  "concat (map fst (snd (on_data_events f chunks st))) @ audioBuffer (fst (on_data_events f chunks st))
     = audioBuffer st @ concat chunks"
proof (induction chunks arbitrary: st)
  case Nil
  show ?case by simp
next
  case (Cons data rest)
  have "concat (map fst (snd (on_data f data st)))
          @ concat (map fst (snd (on_data_events f rest (fst (on_data f data st)))))
          @ audioBuffer (fst (on_data_events f rest (fst (on_data f data st))))
        = concat (map fst (snd (on_data f data st))) @ audioBuffer (fst (on_data f data st)) @ concat rest"
    using Cons.IH[of "fst (on_data f data st)"] by simp
  also have "\<dots> = audioBuffer st @ data @ concat rest"
    using on_data_concat[of f data st] by (metis append.assoc)
  finally show ?case
    by (simp add: case_prod_beta)
qed

lemma on_data_events_frame_lengths:
  "map (\<lambda>call. length (fst call)) (snd (on_data_events f chunks st))
     = replicate (length (snd (on_data_events f chunks st))) chunkSize"
proof (induction chunks arbitrary: st)
  case Nil
  show ?case by simp
next
  case (Cons data rest)
  show ?case
    using Cons.IH[of "fst (on_data f data st)"] on_data_frame_lengths[of f data st]
    by (simp add: case_prod_beta replicate_add)
qed

lemma on_data_events_short:
  "length (audioBuffer st) < chunkSize
     \<Longrightarrow> length (audioBuffer (fst (on_data_events f chunks st))) < chunkSize"
proof (induction chunks arbitrary: st)
  case Nil
  then show ?case by simp
next
  case (Cons data rest)
  show ?case
    using Cons.IH[OF on_data_short[of f data st]]
    by (simp add: case_prod_beta)
qed

lemma on_data_events_count:
  assumes "length (audioBuffer st) < chunkSize"
  shows "length (audioBuffer st) + length (concat chunks)
           = length (snd (on_data_events f chunks st)) * chunkSize
             + length (audioBuffer (fst (on_data_events f chunks st)))"
proof -
  let ?calls = "snd (on_data_events f chunks st)"
  have "length (concat (map fst ?calls)) = sum_list (map (\<lambda>call. length (fst call)) ?calls)"
    by (simp add: length_concat comp_def)
  also have "\<dots> = length ?calls * chunkSize"
    by (subst on_data_events_frame_lengths) (simp add: sum_list_replicate)
  finally have "length (concat (map fst ?calls)) = length ?calls * chunkSize" .
  moreover have "length (concat (map fst ?calls) @ audioBuffer (fst (on_data_events f chunks st)))
                  = length (audioBuffer st @ concat chunks)"
    by (simp only: on_data_events_concat)
  ultimately show ?thesis by simp
qed

text \<open>
  Claim C1. Whatever the chunks pushed into the framer after the stream was started, and
  whatever \<^verbatim>\<open>appendInputAudio\<close> does: the frames handed to it, in order, followed by the
  bytes left in the buffer, are the bytes pushed, in their order (so no byte is sent
  twice, none is lost); there are \<open>total div 4800\<close> frames, each of 4800 bytes; and
  \<open>total mod 4800\<close> bytes stay in the buffer, none when the total is a multiple of 4800.
\<close>

theorem framer_frames:
  "(let (st, calls) = on_data_events appendInputAudio chunks (startAudioStream c);
        total = length (concat chunks)
    in concat (map fst calls) @ audioBuffer st = concat chunks
       \<and> length calls = total div chunkSize
       \<and> map (\<lambda>call. length (fst call)) calls = replicate (total div chunkSize) chunkSize
       \<and> length (audioBuffer st) = total mod chunkSize
       \<and> (chunkSize dvd total \<longrightarrow> audioBuffer st = []))"
proof -
  let ?r = "on_data_events appendInputAudio chunks (startAudioStream c)"
  let ?total = "length (concat chunks)"
  have start: "length (audioBuffer (startAudioStream c)) < chunkSize"
    by (simp add: startAudioStream_def chunkSize_pos)
  have cat: "concat (map fst (snd ?r)) @ audioBuffer (fst ?r) = concat chunks"
    using on_data_events_concat[of appendInputAudio chunks "startAudioStream c"]
    by (simp add: startAudioStream_def)
  have short: "length (audioBuffer (fst ?r)) < chunkSize"
    by (rule on_data_events_short[OF start])
  have total: "?total = length (snd ?r) * chunkSize + length (audioBuffer (fst ?r))"
    using on_data_events_count[OF start, of chunks appendInputAudio]
    by (simp add: startAudioStream_def)
  have n: "length (snd ?r) = ?total div chunkSize"
    using short by (subst total) simp
  have m: "length (audioBuffer (fst ?r)) = ?total mod chunkSize"
    using short by (subst total) simp
  have lens: "map (\<lambda>call. length (fst call)) (snd ?r) = replicate (?total div chunkSize) chunkSize"
    using on_data_events_frame_lengths[of appendInputAudio chunks "startAudioStream c"] n
    by simp
  have empty: "chunkSize dvd ?total \<longrightarrow> audioBuffer (fst ?r) = []"
    using m by (auto simp: dvd_eq_mod_eq_0)
  show ?thesis
    using cat n lens m empty by (simp add: case_prod_beta Let_def)
qed

text \<open>Two chunks of 3000 and 1800 bytes make one frame and leave the buffer empty.\<close>

theorem framer_frames_witness:
  "chunkSize dvd length (concat [replicate 3000 (1::byte), replicate 1800 2])
   \<and> audioBuffer (fst (on_data_events (\<lambda>frame c. (None, c))
                         [replicate 3000 1, replicate 1800 2] (startAudioStream ()))) = []"
  using framer_frames[of "\<lambda>frame c. (None, c)" "[replicate 3000 1, replicate 1800 2]" "()"]
  by (simp add: case_prod_beta Let_def chunkSize_def)

text \<open>
  Claim C9. The buffer after a data event is a function of the bytes alone: the bytes
  held before and the bytes of the event, less the leading multiple of 4800. The frames
  handed to \<^verbatim>\<open>appendInputAudio\<close> are the successive 4800-byte slices of those bytes,
  each once, whatever the calls answer. With a sender that throws at every call the
  handler still returns, every frame has been cut off the buffer and tried once, none
  is put back. \<^verbatim>\<open>processAudioData\<close> behaves the same.
\<close>

theorem framer_buffer_ignores_send:
  "(let everything = audioBuffer st @ data;
        n = length everything div chunkSize
    in audioBuffer (fst (on_data appendInputAudio data st)) = drop (n * chunkSize) everything
       \<and> map fst (snd (on_data appendInputAudio data st))
           = map (\<lambda>i. take chunkSize (drop (i * chunkSize) everything)) [0 ..< n]
       \<and> processAudioData appendInputAudio data st = on_data appendInputAudio data st
       \<and> on_data (\<lambda>frame c. (Some e, c)) data st
           = (st\<lparr>audioBuffer := drop (n * chunkSize) everything\<rparr>,
              map (\<lambda>i. (take chunkSize (drop (i * chunkSize) everything), Some e)) [0 ..< n]))"
  by (simp add: Let_def on_data_def processAudioData_def while_loop_remainder while_loop_frames
        while_loop_throwing)


section \<open>Properties of the tool handlers\<close>

lemma action_normalized_string:
  "action_normalized (JStr s) = Inr (if s = [] then ''none'' else toLowerCase s)"
  by (simp add: action_normalized_def)

lemma mood_normalized_string: "mood_normalized (JStr s) = Inr (toLowerCase s)"
  by (simp add: mood_normalized_def toLowerCase_def)

lemma action_switch_not_canonical:
  "n \<notin> set canonical \<Longrightarrow> action_switch n = []"
  by (simp add: canonical_def action_switch_def)

text \<open>
  Claim C2, as stated, fails: the handlers do not trim. For the action \<open>'' Yes ''\<close>, with
  a blank on each side, \<^verbatim>\<open>action_handler\<close> works with \<open>'' yes ''\<close>, blanks kept, where
  trimming and lower-casing give \<open>''yes''\<close>.
\<close>

theorem normalize_counterexample:
  "action_normalized (JStr '' Yes '') = Inr '' yes '' \<and> spec_normalize (Some '' Yes '') = ''yes''"
  by code_simp

text \<open>
  Claim C2, amended. The normalisation lower-cases and does nothing else to a non-empty
  string. In \<^verbatim>\<open>action_handler\<close> an absent or empty action becomes \<open>''none''\<close>; in the two
  \<^verbatim>\<open>mood_handler\<close>s an absent or empty mood becomes the empty string.
\<close>

theorem normalize_lower_case_only:
  "action_normalized JUndefined = Inr ''none''
   \<and> action_normalized (JStr s) = Inr (if s = [] then ''none'' else toLowerCase s)
   \<and> mood_normalized JUndefined = Inr []
   \<and> mood_normalized (JStr s) = Inr (toLowerCase s)"
  by (simp add: action_normalized_string mood_normalized_string)
     (simp add: action_normalized_def mood_normalized_def)

text \<open>
  Claim C3. For an action string that, lower-cased, is none of the identifiers \<open>yes, no,
  idk, happy, sad, annoyed, fearful, proud, laugh, friendly, none\<close>, the handler does what
  it does for \<open>''none''\<close>: it returns (no exception) and the default branch of the
  \<^verbatim>\<open>switch\<close> runs, so that no local function is called.
\<close>

theorem unknown_action_like_none:
  assumes "toLowerCase s \<notin> set canonical"
  shows "\<exists>r r'. action_handler (JStr s) = Inr r \<and> action_handler (JStr ''none'') = Inr r'
            \<and> called r = [] \<and> called r' = called r"
proof -
  have none: "action_switch ''none'' = []"
    by (simp add: action_switch_def)
  have n: "action_normalized (JStr ''none'') = Inr ''none''"
    by (simp add: action_normalized_string toLowerCase_def toLowerCase_char_def)
  have "action_switch (if s = [] then ''none'' else toLowerCase s) = []"
    using assms none by (simp add: action_switch_not_canonical)
  then show ?thesis
    using none n by (simp add: action_handler_def action_normalized_string)
qed

theorem unknown_action_like_none_witness:
  "toLowerCase ''XYZ'' \<notin> set canonical
   \<and> (\<exists>r r'. action_handler (JStr ''XYZ'') = Inr r \<and> action_handler (JStr ''none'') = Inr r'
            \<and> called r = [] \<and> called r' = called r)"
proof -
  have h: "toLowerCase ''XYZ'' \<notin> set canonical"
    by code_simp
  show ?thesis using h unknown_action_like_none[OF h] by simp
qed

text \<open>
  Claim C4, as stated, fails for \<^verbatim>\<open>mood_handler\<close> of \<^verbatim>\<open>mood.mjs\<close>: the object it returns
  carries the mood as it was received. For the mood \<open>''HAPPY''\<close> it calls \<^verbatim>\<open>happy()\<close> and
  returns \<^verbatim>\<open>{status: 'processed', mood: 'HAPPY'}\<close>, where the normalised mood is
  \<open>''happy''\<close>.
\<close>

theorem acknowledgment_counterexample:
  "mood_handler (JStr ''HAPPY'')
     = Inr \<lparr>called = [happy],
            returned = JObj [(''status'', JStr ''processed''), (''mood'', JStr ''HAPPY'')]\<rparr>
   \<and> mood_normalized (JStr ''HAPPY'') = Inr ''happy''"
  by code_simp

text \<open>
  Claim C4, amended. For every action or mood that is a string or is absent, the handler
  returns one object with status \<open>''processed''\<close>, whether or not a local function was
  called for it. \<^verbatim>\<open>action_handler\<close> echoes the normalised action (lower-cased, or
  \<open>''none''\<close> for an empty or absent one); \<^verbatim>\<open>mood_handler\<close> of \<^verbatim>\<open>mood.mjs\<close> echoes the mood
  as it was received, not normalised.
\<close>

theorem acknowledgment_returned:
  "action_handler (JStr s)
     = Inr \<lparr>called = action_switch (if s = [] then ''none'' else toLowerCase s),
            returned = JObj [(''status'', JStr ''processed''),
                             (''action'', JStr (if s = [] then ''none'' else toLowerCase s))]\<rparr>
   \<and> action_handler JUndefined
     = Inr \<lparr>called = [],
            returned = JObj [(''status'', JStr ''processed''), (''action'', JStr ''none'')]\<rparr>
   \<and> mood_handler (JStr s)
     = Inr \<lparr>called = mood_branch (toLowerCase s),
            returned = JObj [(''status'', JStr ''processed''), (''mood'', JStr s)]\<rparr>
   \<and> mood_handler JUndefined
     = Inr \<lparr>called = [],
            returned = JObj [(''status'', JStr ''processed''), (''mood'', JUndefined)]\<rparr>"
proof -
  have a: "action_normalized JUndefined = Inr ''none''"
    by (simp add: action_normalized_def)
  have m: "mood_normalized JUndefined = Inr []"
    by (simp add: mood_normalized_def)
  have sw: "action_switch ''none'' = []"
    by (simp add: action_switch_def)
  have br: "mood_branch [] = []"
    by (simp add: mood_branch_def)
  show ?thesis
    by (simp add: action_handler_def mood_handler_def mood_handler_status_def
          action_normalized_string mood_normalized_string a m sw br)
qed


section \<open>Properties of the reset\<close>

lemma get_prop_truthy: "truthy v \<Longrightarrow> \<exists>w. get_prop v k = Inr w"
  by (cases v) (simp_all split: option.splits)

lemma reset_on_function_call:
  assumes "get_prop item ''type'' = Inr (JStr ''function_call'')"
    and "conversation cl = JObj fs" and "map_of fs ''items'' = Some (JArr xs)"
  shows "conversation_item_completed item cl
           = Inr (cl\<lparr>conversation := JObj (AList.update ''items'' (JArr []) fs)\<rparr>,
                  [Function_call_completed item, Conversation_context_reset])"
  using assms by (simp add: conversation_item_completed_def)


lemma items_after_update:
  "map_of (AList.update ''items'' (JArr []) fs) ''items'' = Some (JArr [])"
  by (simp add: update_conv')



text \<open>
  Claim C5. When the reset runs (the completed item is a \<open>function_call\<close> and the client's
  conversation holds an array of items, however many), the items of the conversation
  are afterwards an array of length 0.
\<close>

theorem reset_empties_items:
  assumes "get_prop item ''type'' = Inr (JStr ''function_call'')"
    and "conversation cl = JObj fs" and "map_of fs ''items'' = Some (JArr xs)"
  shows "\<exists>cl' out ys. conversation_item_completed item cl = Inr (cl', out)
           \<and> get_prop (conversation cl') ''items'' = Inr (JArr ys) \<and> length ys = 0"
  using reset_on_function_call[OF assms] by (simp add: items_after_update)

theorem reset_empties_items_witness:
  "get_prop (JObj [(''type'', JStr ''function_call'')]) ''type'' = Inr (JStr ''function_call'')
   \<and> conversation \<lparr>conversation = JObj [(''items'', JArr [JNull, JStr ''a'', JNull])]\<rparr>
       = JObj [(''items'', JArr [JNull, JStr ''a'', JNull])]
   \<and> map_of [(''items'', JArr [JNull, JStr ''a'', JNull])] ''items''
       = Some (JArr [JNull, JStr ''a'', JNull])
   \<and> (\<exists>cl' out ys. conversation_item_completed (JObj [(''type'', JStr ''function_call'')])
                    \<lparr>conversation = JObj [(''items'', JArr [JNull, JStr ''a'', JNull])]\<rparr>
                  = Inr (cl', out)
           \<and> get_prop (conversation cl') ''items'' = Inr (JArr ys) \<and> length ys = 0)"
proof -
  have h1: "get_prop (JObj [(''type'', JStr ''function_call'')]) ''type'' = Inr (JStr ''function_call'')"
    by simp
  have h2: "conversation \<lparr>conversation = JObj [(''items'', JArr [JNull, JStr ''a'', JNull])]\<rparr>
       = JObj [(''items'', JArr [JNull, JStr ''a'', JNull])]"
    by simp
  have h3: "map_of [(''items'', JArr [JNull, JStr ''a'', JNull])] ''items''
       = Some (JArr [JNull, JStr ''a'', JNull])"
    by simp
  from reset_empties_items[OF h1 h2 h3] h1 h2 h3 show ?thesis
    by blast
qed




text \<open>
  Claim C10. Given a completed item whose type can be read: when the client has no
  conversation (a falsy value in its place), or the conversation's \<^verbatim>\<open>items\<close> is not an
  array, the listener returns without an exception and the client is what it was. So
  the listener changes the client only when the conversation exists and its \<^verbatim>\<open>items\<close>
  is an array.
\<close>

theorem reset_guard:
  assumes "get_prop item ''type'' = Inr t"
    and "\<not> (truthy (conversation cl) \<and> (\<exists>xs. get_prop (conversation cl) ''items'' = Inr (JArr xs)))"
  shows "\<exists>out. conversation_item_completed item cl = Inr (cl, out)"
proof (cases "truthy (conversation cl)")
  case True
  then obtain v where v: "get_prop (conversation cl) ''items'' = Inr v"
    using get_prop_truthy by blast
  with True assms(2) have "\<not> isArray v"
    by (cases v) auto
  with True v assms(1) show ?thesis
    by (simp add: conversation_item_completed_def)
next
  case False
  with assms(1) show ?thesis
    by (simp add: conversation_item_completed_def)
qed

theorem reset_guard_witness:
  "get_prop (JObj [(''type'', JStr ''function_call'')]) ''type'' = Inr (JStr ''function_call'')
   \<and> \<not> (truthy (conversation \<lparr>conversation = JUndefined\<rparr>)
         \<and> (\<exists>xs. get_prop (conversation \<lparr>conversation = JUndefined\<rparr>) ''items'' = Inr (JArr xs)))
   \<and> (\<exists>out. conversation_item_completed (JObj [(''type'', JStr ''function_call'')])
                \<lparr>conversation = JUndefined\<rparr>
              = Inr (\<lparr>conversation = JUndefined\<rparr>, out))"
proof -
  have h1: "get_prop (JObj [(''type'', JStr ''function_call'')]) ''type'' = Inr (JStr ''function_call'')"
    by simp
  have h2: "\<not> (truthy (conversation \<lparr>conversation = JUndefined\<rparr>)
         \<and> (\<exists>xs. get_prop (conversation \<lparr>conversation = JUndefined\<rparr>) ''items'' = Inr (JArr xs)))"
    by simp
  from reset_guard[OF h1 h2] h1 h2 show ?thesis by blast
qed


section \<open>Properties of connecting\<close>

lemma event_loop_voice_failure:
  "event_loop main_voice (False # rest)
     = \<lparr>audio_started = False, retry_after = Some 5000\<rparr> # event_loop main_voice rest"
  by (simp add: main_voice_def)

lemma event_loop_voice_success:
  "event_loop main_voice (True # rest) = [\<lparr>audio_started = True, retry_after = None\<rparr>]"
  by (simp add: main_voice_def)

lemma event_loop_voice_failures:
  "event_loop main_voice (replicate n False @ rest)
     = replicate n \<lparr>audio_started = False, retry_after = Some 5000\<rparr> @ event_loop main_voice rest"
  by (induction n) (simp_all add: event_loop_voice_failure del: event_loop.simps)

text \<open>
  Claim C8, as stated, fails for \<^verbatim>\<open>main\<close> of \<^verbatim>\<open>advanced_mood.js\<close>: after a failed
  \<^verbatim>\<open>connect\<close> it sets no timer, so there is no second attempt, even when the next
  \<^verbatim>\<open>connect\<close> would succeed.
\<close>

theorem retry_counterexample:
  "event_loop main_advanced_mood [False, True] = [\<lparr>audio_started = False, retry_after = None\<rparr>]"
  by (simp add: main_advanced_mood_def)

text \<open>
  Claim C8, amended. In the voice assistant every failed \<^verbatim>\<open>connect\<close> is followed by a
  new call of \<^verbatim>\<open>main\<close> after 5000 milliseconds, however many have failed before, and the
  audio stream is started at the first \<^verbatim>\<open>connect\<close> that succeeds and in no failed
  attempt. In \<^verbatim>\<open>advanced_mood.js\<close> (and in the mood demo, whose \<^verbatim>\<open>main\<close> is the same) a
  failed \<^verbatim>\<open>connect\<close> is logged and not retried; there too the audio stream is started
  only after a \<^verbatim>\<open>connect\<close> that succeeded.
\<close>

theorem retry_voice_only:
  "event_loop main_voice (replicate n False)
     = replicate n \<lparr>audio_started = False, retry_after = Some 5000\<rparr>
   \<and> event_loop main_voice (replicate n False @ True # rest)
     = replicate n \<lparr>audio_started = False, retry_after = Some 5000\<rparr>
       @ [\<lparr>audio_started = True, retry_after = None\<rparr>]
   \<and> event_loop main_advanced_mood (False # rest) = [\<lparr>audio_started = False, retry_after = None\<rparr>]
   \<and> event_loop main_advanced_mood (True # rest) = [\<lparr>audio_started = True, retry_after = None\<rparr>]"
  using event_loop_voice_failures[of n "[]"] event_loop_voice_failures[of n "True # rest"]
  by (simp add: event_loop_voice_success del: event_loop.simps)
     (simp add: main_advanced_mood_def)

end
